theory Spec2Isabelle
  imports Main "HOL-Library.Multiset"
begin

section \<open>The MRKL action parser and router construction\<close>

text \<open>
  A shallow embedding of \<^verbatim>\<open>langchain/routing_chains/mrkl/base.py\<close>.
  A Python \<^verbatim>\<open>str\<close> is a \<^typ>\<open>string\<close>, one list element per character of
  the source string; every literal of the source is ASCII. An exception is a value
  \<open>Inl e\<close> of the sum type, a returned value is \<open>Inr v\<close>.
\<close>

subsection \<open>The string operations the source calls\<close>

text \<open>
  \<^verbatim>\<open>s.split(sep)\<close> for a one-character separator (the source passes
  \<^verbatim>\<open>"\n"\<close>): the pieces between the occurrences of the separator, in order;
  the empty string gives one empty piece.
\<close>

fun str_split :: "string \<Rightarrow> char \<Rightarrow> string list" where
  "str_split [] sep = [[]]"
| "str_split (c # cs) sep =
     (if c = sep then [] # str_split cs sep
      else (case str_split cs sep of
              [] \<Rightarrow> [[c]]
            | w # ws \<Rightarrow> (c # w) # ws))"

text \<open>\<^verbatim>\<open>s.startswith(p)\<close>.\<close>

definition startswith :: "string \<Rightarrow> string \<Rightarrow> bool" where
  "startswith s p = (take (length p) s = p)"

text \<open>
  \<^verbatim>\<open>s.strip(chars)\<close>: every leading and every trailing character that occurs in
  \<open>chars\<close> is removed, each end on its own.
\<close>

definition strip :: "string \<Rightarrow> string \<Rightarrow> string" where
  "strip s chars =
     rev (dropWhile (\<lambda>c. c \<in> set chars) (rev (dropWhile (\<lambda>c. c \<in> set chars) s)))"

text \<open>
  \<^verbatim>\<open>sep.join(xs)\<close>: the elements of \<open>xs\<close> in order, with \<open>sep\<close> between
  neighbours.
\<close>

fun join :: "string \<Rightarrow> string list \<Rightarrow> string" where
  "join sep [] = []"
| "join sep [x] = x"
| "join sep (x # y # ys) = x @ sep @ join sep (y # ys)"

subsection \<open>Exceptions and negative indexing\<close>

datatype error = IndexError | ValueError string

text \<open>
  \<^verbatim>\<open>xs[-k]\<close> for \<open>k \<ge> 1\<close>: the \<open>k\<close>-th element from the end, and
  \<^verbatim>\<open>IndexError\<close> when the list has fewer than \<open>k\<close> elements.
\<close>

definition from_end :: "'a list \<Rightarrow> nat \<Rightarrow> error + 'a" where
  "from_end xs k =
     (if 0 < k \<and> k \<le> length xs then Inr (xs ! (length xs - k)) else Inl IndexError)"

subsection \<open>The parser\<close>

definition FINAL_ANSWER_ACTION :: string where
  "FINAL_ANSWER_ACTION = ''Final Answer: ''"

text \<open>The messages of the two \<^verbatim>\<open>ValueError\<close>s of lines 36 to 44.\<close>

definition no_action_input_msg :: string where
  "no_action_input_msg =
     ''The last line does not have an action input, something has gone terribly wrong.''"

definition no_action_msg :: string where
  "no_action_msg =
     ''The second to last line does not have an action, something has gone terribly wrong.''"

text \<open>Line 31: \<^verbatim>\<open>ps = [p for p in llm_output.split("\n") if p]\<close>.\<close>

definition nonempty_lines :: "string \<Rightarrow> string list" where
  "nonempty_lines llm_output = filter (\<lambda>p. p \<noteq> []) (str_split llm_output (CHR 0x0A))"

text \<open>
  Lines 29 to 47. The result is the pair the source returns: the finish directive is the
  pair whose first component is the string \<^verbatim>\<open>Final Answer\<close>, an action is the pair
  of the tool name and the tool input.
\<close>

definition get_action_and_input :: "string \<Rightarrow> error + string \<times> string" where
  \<open>get_action_and_input llm_output =
     (let ps = nonempty_lines llm_output in
      case from_end ps 1 of
        Inl e \<Rightarrow> Inl e
      | Inr l1 \<Rightarrow>
          if startswith l1 ''Final Answer''
          then Inr (''Final Answer'', drop (length FINAL_ANSWER_ACTION) l1)
          else if \<not> startswith l1 ''Action Input: ''
          then Inl (ValueError no_action_input_msg)
          else (case from_end ps 2 of
                  Inl e \<Rightarrow> Inl e
                | Inr l2 \<Rightarrow>
                    if \<not> startswith l2 ''Action: ''
                    then Inl (ValueError no_action_msg)
                    else Inr (drop (length ''Action: '') l2,
                              strip (strip (drop (length ''Action Input: '') l1) '' '') ''"'')))\<close>

subsection \<open>Tools, chain configurations and the router\<close>

text \<open>
  Modelled from the spec: the \<^verbatim>\<open>Tool\<close> tuple of
  \<^verbatim>\<open>langchain.routing_chains.tools\<close>, which is not among the sources. The
  specification gives a tool a name, a description and a function to invoke; the fields
  carry the names the source uses (\<^verbatim>\<open>Tool(name=..., func=..., description=...)\<close>).
  The type \<open>'f\<close> is the type of the tool functions, which the construction never calls.
\<close>

record 'f Tool =
  name :: string
  func :: 'f
  description :: string

text \<open>Lines 15 to 26.\<close>

record 'f ChainConfig =
  action_name :: string
  action :: 'f
  action_description :: string

text \<open>
  Modelled from the spec: the prompt template, the LLM chain and the router object, whose
  classes (\<^verbatim>\<open>PromptTemplate\<close>, \<^verbatim>\<open>LLMChain\<close>, \<^verbatim>\<open>LLMRouter\<close>) are not
  among the sources. Each is the record of the keyword arguments its constructor is called
  with in lines 69 to 71. The type \<open>'l\<close> is the type of the LLM.
\<close>

record PromptTemplate =
  template :: string
  input_variables :: "string list"

record 'l LLMChain =
  llm :: 'l
  prompt :: PromptTemplate

record 'l ZeroShotRouter =
  llm_chain :: "'l LLMChain"

text \<open>Line 66: the catalog of the tools, one \<^verbatim>\<open>name: description\<close> line per tool.\<close>

definition tool_strings :: "'f Tool list \<Rightarrow> string" where
  "tool_strings tools =
     join ''\<newline>'' (map (\<lambda>tool. name tool @ '': '' @ description tool) tools)"

text \<open>Line 67: the names of the tools.\<close>

definition tool_names :: "'f Tool list \<Rightarrow> string" where
  "tool_names tools = join '', '' (map (\<lambda>tool. name tool) tools)"

text \<open>
  Lines 64 to 71. \<^verbatim>\<open>BASE_TEMPLATE\<close> is not among the sources: the parameter
  \<open>base_template_format\<close> stands for
  \<^verbatim>\<open>BASE_TEMPLATE.format(tools=..., tool_names=...)\<close>, which returns the template or
  raises.
\<close>

definition from_llm_and_tools ::
  "(string \<Rightarrow> string \<Rightarrow> 'e + string) \<Rightarrow> 'l \<Rightarrow> 'f Tool list \<Rightarrow> 'e + 'l ZeroShotRouter" where
  "from_llm_and_tools base_template_format l tools =
     (case base_template_format (tool_strings tools) (tool_names tools) of
        Inl e \<Rightarrow> Inl e
      | Inr t \<Rightarrow>
          Inr \<lparr>llm_chain =
                 \<lparr>llm = l, prompt = \<lparr>template = t, input_variables = [''input'']\<rparr>\<rparr>\<rparr>)"

text \<open>
  Lines 136 to 176. The parameter \<open>cls\<close> stands for the constructor of the chain class
  (\<^verbatim>\<open>cls(router=router, tools=tools, **kwargs)\<close>; \<^verbatim>\<open>RoutingChain\<close> is not among
  the sources), which returns the chain or raises; \<open>kwargs\<close> is the dictionary of the
  keyword arguments, handed on as it is.
\<close>

definition from_tools_and_llm ::
  "('l ZeroShotRouter \<Rightarrow> 'f Tool list \<Rightarrow> 'kw \<Rightarrow> 'e + 'c)
     \<Rightarrow> (string \<Rightarrow> string \<Rightarrow> 'e + string) \<Rightarrow> 'f Tool list \<Rightarrow> 'l \<Rightarrow> 'kw \<Rightarrow> 'e + 'c" where
  "from_tools_and_llm cls base_template_format tools l kwargs =
     (case from_llm_and_tools base_template_format l tools of
        Inl e \<Rightarrow> Inl e
      | Inr router \<Rightarrow> cls router tools kwargs)"

text \<open>Lines 91 to 134.\<close>

definition from_chains ::
  "('l ZeroShotRouter \<Rightarrow> 'f Tool list \<Rightarrow> 'kw \<Rightarrow> 'e + 'c)
     \<Rightarrow> (string \<Rightarrow> string \<Rightarrow> 'e + string) \<Rightarrow> 'l \<Rightarrow> 'f ChainConfig list \<Rightarrow> 'kw \<Rightarrow> 'e + 'c" where
  "from_chains cls base_template_format l chain_configs kwargs =
     (let tools = map (\<lambda>c. \<lparr>name = action_name c, func = action c,
                              description = action_description c\<rparr>) chain_configs
      in from_tools_and_llm cls base_template_format tools l kwargs)"

text \<open>
  The two tools of the example in the docstring of lines 161 to 172. The tool functions of
  the example are methods of other classes; the identity stands in for them, since the
  construction does not call them.
\<close>

definition example_tools :: "(string \<Rightarrow> string) Tool list" where
  "example_tools =
     [\<lparr>name = ''Search'', func = (\<lambda>q. q), description = ''useful for searching''\<rparr>,
      \<lparr>name = ''Calculator'', func = (\<lambda>q. q), description = ''useful for doing math''\<rparr>]"

subsection \<open>The tool input as the specification words it\<close>

text \<open>
  Not a function of the source: the tool input the specification describes, the text after
  the prefix of the last line with its leading and trailing spaces removed and then one
  layer of surrounding double quotes removed when there is a quote at both ends. It is
  compared with what line 47 computes.
\<close>

definition spec_tool_input :: "string \<Rightarrow> string" where
  "spec_tool_input y =
     (let z = strip y '' '' in
      if 2 \<le> length z \<and> hd z = CHR 0x22 \<and> last z = CHR 0x22 then butlast (tl z) else z)"

section \<open>Properties of the string operations\<close>

lemma str_split_not_Nil: "str_split s sep \<noteq> []"
  by (induction s) (auto split: list.splits)

lemma str_split_no_sep: "sep \<notin> set a \<Longrightarrow> str_split a sep = [a]"
  by (induction a) auto

lemma str_split_append_sep:
  "str_split (a @ sep # b) sep = str_split a sep @ str_split b sep"
proof (induction a)
  case Nil
  then show ?case by simp
next
  case (Cons c a)
  then show ?case
    using str_split_not_Nil [of a sep] by (cases "str_split a sep") auto
qed

text \<open>The pieces of a joined list are the pieces of its elements, in order.\<close>

lemma str_split_join_pieces:
  "xs \<noteq> [] \<Longrightarrow> str_split (join [sep] xs) sep = concat (map (\<lambda>x. str_split x sep) xs)"
  by (induction "[sep]" xs rule: join.induct) (simp_all add: str_split_append_sep)

lemma str_split_join:
  assumes "xs \<noteq> []" and "\<forall>x\<in>set xs. sep \<notin> set x"
  shows "str_split (join [sep] xs) sep = xs"
proof -
  have "concat (map (\<lambda>x. str_split x sep) ys) = ys" if "\<forall>x\<in>set ys. sep \<notin> set x"
    for ys :: "string list"
    using that by (induction ys) (simp_all add: str_split_no_sep)
  then show ?thesis
    using assms by (simp add: str_split_join_pieces)
qed

lemma join_snoc: "join sep (xs @ [x]) = (if xs = [] then x else join sep xs @ sep @ x)"
  by (induction sep xs rule: join.induct) auto

section \<open>Properties of the parser\<close>

subsection \<open>Auxiliary facts\<close>

lemma from_end_1: "ps \<noteq> [] \<Longrightarrow> from_end ps (Suc 0) = Inr (last ps)"
  by (cases ps) (simp_all add: from_end_def last_conv_nth)

lemma from_end_2: "2 \<le> length ps \<Longrightarrow> from_end ps 2 = Inr (ps ! (length ps - 2))"
  by (simp add: from_end_def)

lemma from_end_2_short: "length ps < 2 \<Longrightarrow> from_end ps 2 = Inl IndexError"
  by (simp add: from_end_def)

lemma from_end_drop:
  assumes "k \<le> m"
  shows "from_end (drop (length xs - m) xs) k = from_end xs k"
proof (cases "0 < k \<and> k \<le> length xs")
  case True
  then have "length xs - m + (length xs - (length xs - m) - k) = length xs - k"
    using assms by arith
  moreover have "k \<le> length xs - (length xs - m)" using True assms by arith
  ultimately show ?thesis using True by (simp add: from_end_def)
next
  case False
  then show ?thesis by (auto simp add: from_end_def)
qed

text \<open>
  The non-empty lines of an input that is written as lines: a newline between two parts
  joins their non-empty lines, and newlines after the last line add nothing.
\<close>

lemma nonempty_lines_append:
  "nonempty_lines (a @ CHR 0x0A # b) = nonempty_lines a @ nonempty_lines b"
  by (simp add: nonempty_lines_def str_split_append_sep)

lemma nonempty_lines_single:
  "CHR 0x0A \<notin> set l \<Longrightarrow> l \<noteq> [] \<Longrightarrow> nonempty_lines l = [l]"
  by (simp add: nonempty_lines_def str_split_no_sep)

lemma nonempty_lines_newlines: "nonempty_lines (replicate n (CHR 0x0A)) = []"
  by (induction n) (simp_all add: nonempty_lines_def)

lemma nonempty_lines_last_line:
  assumes "CHR 0x0A \<notin> set l" and "l \<noteq> []"
  shows "nonempty_lines (pre @ CHR 0x0A # l @ replicate n (CHR 0x0A)) = nonempty_lines pre @ [l]"
    and "nonempty_lines (l @ replicate n (CHR 0x0A)) = [l]"
proof -
  have t: "nonempty_lines (l @ replicate n (CHR 0x0A)) = [l]"
  proof (cases n)
    case 0
    then show ?thesis using assms by (simp add: nonempty_lines_single)
  next
    case (Suc m)
    then have "nonempty_lines (l @ replicate n (CHR 0x0A))
                 = nonempty_lines l @ nonempty_lines (replicate m (CHR 0x0A))"
      by (simp add: nonempty_lines_append)
    then show ?thesis
      using assms by (simp add: nonempty_lines_single nonempty_lines_newlines)
  qed
  show "nonempty_lines (l @ replicate n (CHR 0x0A)) = [l]" by (rule t)
  show "nonempty_lines (pre @ CHR 0x0A # l @ replicate n (CHR 0x0A)) = nonempty_lines pre @ [l]"
    by (simp only: nonempty_lines_append t)
qed

lemma action_input_not_final:
  "startswith l ''Action Input: '' \<Longrightarrow> \<not> startswith l ''Final Answer''"
  by (cases l) (auto simp add: startswith_def)

text \<open>The parser in terms of the list of the non-empty lines, when there is one.\<close>

lemma parse_unfold:
  assumes "nonempty_lines s = ps" and "ps \<noteq> []"
  shows "get_action_and_input s =
     (if startswith (last ps) ''Final Answer''
      then Inr (''Final Answer'', drop (length ''Final Answer: '') (last ps))
      else if \<not> startswith (last ps) ''Action Input: ''
      then Inl (ValueError no_action_input_msg)
      else if length ps < 2 then Inl IndexError
      else if \<not> startswith (ps ! (length ps - 2)) ''Action: ''
      then Inl (ValueError no_action_msg)
      else Inr (drop (length ''Action: '') (ps ! (length ps - 2)),
                strip (strip (drop (length ''Action Input: '') (last ps)) '' '') [CHR 0x22]))"
  using assms
  by (simp add: get_action_and_input_def Let_def from_end_1 from_end_2 from_end_2_short
      FINAL_ANSWER_ACTION_def not_less)

lemma strip_no_edge:
  assumes "s = [] \<or> (hd s \<notin> set chars \<and> last s \<notin> set chars)"
  shows "strip s chars = s"
proof (cases s)
  case Nil
  then show ?thesis by (simp add: strip_def)
next
  case (Cons a list)
  with assms have h: "hd s \<notin> set chars" and l: "last s \<notin> set chars" by auto
  have 1: "dropWhile (\<lambda>c. c \<in> set chars) s = s"
    using h Cons by simp
  have 2: "dropWhile (\<lambda>c. c \<in> set chars) (rev s) = rev s"
    using l by (simp add: dropWhile_eq_self_iff hd_rev)
  show ?thesis by (simp add: strip_def 1 2)
qed

lemma strip_quoted:
  assumes "X = [] \<or> (hd X \<noteq> CHR 0x22 \<and> last X \<noteq> CHR 0x22)"
  shows "strip (CHR 0x22 # X @ [CHR 0x22]) [CHR 0x22] = X"
proof (cases X)
  case Nil
  then show ?thesis by (simp add: strip_def)
next
  case (Cons a list)
  with assms have h: "hd X \<noteq> CHR 0x22" and l: "last X \<noteq> CHR 0x22" by auto
  have 1: "dropWhile (\<lambda>c. c = CHR 0x22) (X @ [CHR 0x22]) = X @ [CHR 0x22]"
    using h Cons by simp
  have 2: "dropWhile (\<lambda>c. c = CHR 0x22) (rev X) = rev X"
    using l by (simp add: dropWhile_eq_self_iff hd_rev)
  show ?thesis by (simp add: strip_def 1 2)
qed

subsection \<open>The final answer\<close>

text \<open>
  Claim C2. When the last non-empty line of the input is \<^verbatim>\<open>Final Answer: X\<close>, the
  parser returns the finish pair with output \<open>X\<close>, whatever the lines before it are
  (there may be none): the test of line 32 is the first one and the action tests are not
  reached.
\<close>

theorem final_answer_parsed:
  assumes "nonempty_lines s \<noteq> []"
    and "last (nonempty_lines s) = ''Final Answer: '' @ X"
  shows "get_action_and_input s = Inr (''Final Answer'', X)"
proof -
  have "startswith (last (nonempty_lines s)) ''Final Answer''"
    unfolding assms(2) by (simp add: startswith_def)
  moreover have "drop (length FINAL_ANSWER_ACTION) (last (nonempty_lines s)) = X"
    unfolding assms(2) by (simp add: FINAL_ANSWER_ACTION_def)
  ultimately show ?thesis
    using assms(1) by (simp add: get_action_and_input_def Let_def from_end_1)
qed

theorem final_answer_parsed_witness:
  "get_action_and_input ''Final Answer: Paris'' = Inr (''Final Answer'', ''Paris'')
   \<and> get_action_and_input ''I know now.\<newline>Action: Search\<newline>Final Answer: Paris\<newline>''
       = Inr (''Final Answer'', ''Paris'')"
proof -
  have a: "nonempty_lines ''Final Answer: Paris'' = [''Final Answer: Paris'']"
    by (simp add: nonempty_lines_def)
  have b: "nonempty_lines ''I know now.\<newline>Action: Search\<newline>Final Answer: Paris\<newline>''
             = [''I know now.'', ''Action: Search'', ''Final Answer: Paris'']"
    by (simp add: nonempty_lines_def)
  show ?thesis
    using final_answer_parsed [of "''Final Answer: Paris''" "''Paris''"]
      final_answer_parsed
        [of "''I know now.\<newline>Action: Search\<newline>Final Answer: Paris\<newline>''" "''Paris''"]
    by (simp add: a b)
qed

text \<open>
  Claim C6, at a failing input. The test of line 32 is \<^verbatim>\<open>startswith("Final Answer")\<close>,
  two characters shorter than the prefix \<^verbatim>\<open>FINAL_ANSWER_ACTION\<close> whose length
  line 33 cuts off. A last line that begins with \<^verbatim>\<open>Final Answer\<close> but not with
  \<^verbatim>\<open>Final Answer: \<close> is therefore answered with the finish pair, and its output
  has lost the two characters after \<^verbatim>\<open>Final Answer\<close>.
\<close>

theorem final_answer_guard_shorter_than_prefix:
  "\<not> startswith ''Final Answer is 42'' ''Final Answer: ''
   \<and> drop (length ''Final Answer: '') ''Final Answer is 42'' \<noteq> []
   \<and> get_action_and_input ''Final Answer is 42'' = Inr (''Final Answer'', ''s 42'')"
  by (simp add: get_action_and_input_def nonempty_lines_def from_end_def startswith_def
      FINAL_ANSWER_ACTION_def)

text \<open>
  The finish pair is also what the action branch returns for a tool that is named
  \<^verbatim>\<open>Final Answer\<close>.
\<close>

lemma action_named_final_answer:
  "get_action_and_input ''Action: Final Answer\<newline>Action Input: 42''
     = Inr (''Final Answer'', ''42'')"
  by (simp add: get_action_and_input_def nonempty_lines_def from_end_def startswith_def
      strip_def)

subsection \<open>Actions\<close>

text \<open>
  Claim C1, as amended. When the input has at least two non-empty lines, the second to
  last is \<^verbatim>\<open>Action: T\<close> and the last is \<^verbatim>\<open>Action Input: Y\<close>, the parser returns
  the pair of \<open>T\<close>, untrimmed, and of \<open>Y\<close> with its leading and trailing spaces removed
  and then all its leading and all its trailing double quotes removed. When \<open>Y\<close> is
  \<open>X\<close> between two double quotes and \<open>X\<close> itself neither begins nor ends with a
  double quote, the tool input is \<open>X\<close>.
\<close>

theorem action_and_input_parsed:
  assumes "2 \<le> length (nonempty_lines s)"
    and "nonempty_lines s ! (length (nonempty_lines s) - 2) = ''Action: '' @ T"
    and "last (nonempty_lines s) = ''Action Input: '' @ Y"
  shows "get_action_and_input s = Inr (T, strip (strip Y '' '') [CHR 0x22])
         \<and> (Y = CHR 0x22 # X @ [CHR 0x22]
              \<and> (X = [] \<or> (hd X \<noteq> CHR 0x22 \<and> last X \<noteq> CHR 0x22))
            \<longrightarrow> get_action_and_input s = Inr (T, X))"
proof -
  define ps where "ps = nonempty_lines s"
  have ne: "ps \<noteq> []" using assms(1) by (auto simp add: ps_def)
  have ai: "startswith (last ps) ''Action Input: ''"
    using assms(3) by (simp add: ps_def startswith_def)
  have nf: "\<not> startswith (last ps) ''Final Answer''"
    by (rule action_input_not_final [OF ai])
  have ac: "startswith (ps ! (length ps - 2)) ''Action: ''"
    using assms(2) by (simp add: ps_def startswith_def)
  have d1: "drop (length ''Action: '') (ps ! (length ps - 2)) = T"
    using assms(2) by (simp add: ps_def)
  have d2: "drop (length ''Action Input: '') (last ps) = Y"
    using assms(3) by (simp add: ps_def)
  have len: "\<not> length ps < 2" using assms(1) by (simp add: ps_def)
  have main: "get_action_and_input s = Inr (T, strip (strip Y '' '') [CHR 0x22])"
    unfolding parse_unfold [OF ps_def [symmetric] ne]
    using ai nf ac len by (simp only: d1 d2 if_True if_False not_True_eq_False not_not)
  have quoted: "get_action_and_input s = Inr (T, X)"
    if y: "Y = CHR 0x22 # X @ [CHR 0x22]"
      and x: "X = [] \<or> (hd X \<noteq> CHR 0x22 \<and> last X \<noteq> CHR 0x22)"
  proof -
    have "strip Y '' '' = Y"
      unfolding y by (rule strip_no_edge) simp
    then show ?thesis
      using main strip_quoted [OF x] by (simp add: y)
  qed
  from main quoted show ?thesis by blast
qed

text \<open>The theorem at the first answer of the end-to-end scenario of the specification.\<close>

theorem action_and_input_parsed_witness:
  \<open>get_action_and_input
     ''I should search.\<newline>Action: Search\<newline>Action Input: "capital of France"''
     = Inr (''Search'', ''capital of France'')\<close>
proof -
  have ps: \<open>nonempty_lines
      ''I should search.\<newline>Action: Search\<newline>Action Input: "capital of France"''
      = [''I should search.'', ''Action: Search'', ''Action Input: "capital of France"'']\<close>
    by (simp add: nonempty_lines_def)
  show ?thesis
    using action_and_input_parsed
      [of \<open>''I should search.\<newline>Action: Search\<newline>Action Input: "capital of France"''\<close>
          "''Search''" \<open>''"capital of France"''\<close> "''capital of France''"]
    by (simp add: ps strip_def)
qed

text \<open>
  Claim C1 as the specification states it fails: with two layers of double quotes around
  \<^verbatim>\<open>X\<close> the source removes both, and the tool input is \<^verbatim>\<open>X\<close>, where removing
  exactly one layer leaves \<^verbatim>\<open>"X"\<close>.
\<close>

theorem one_quote_layer_counterexample:
  \<open>get_action_and_input ''Action: Search\<newline>Action Input: ""X""'' = Inr (''Search'', ''X'')
   \<and> spec_tool_input ''""X""'' = ''"X"''
   \<and> get_action_and_input ''Action: Search\<newline>Action Input: ""X""''
       \<noteq> Inr (''Search'', spec_tool_input ''""X""'')\<close>
  by (simp add: get_action_and_input_def nonempty_lines_def from_end_def startswith_def
      strip_def spec_tool_input_def)

subsection \<open>Malformed output\<close>

text \<open>
  Where \<^verbatim>\<open>IndexError\<close> leaves the parser: when there is no non-empty line, and when
  the only non-empty line begins with \<^verbatim>\<open>Action Input: \<close>. Everywhere else the
  parser returns a pair or raises one of its two \<^verbatim>\<open>ValueError\<close>s.
\<close>

lemma IndexError_iff:
  "get_action_and_input s = Inl IndexError \<longleftrightarrow>
     nonempty_lines s = []
     \<or> (length (nonempty_lines s) = 1 \<and> startswith (last (nonempty_lines s)) ''Action Input: '')"
proof (cases "nonempty_lines s = []")
  case True
  then show ?thesis by (simp add: get_action_and_input_def from_end_def)
next
  case False
  have "length (nonempty_lines s) < 2 \<longleftrightarrow> length (nonempty_lines s) = 1"
    using False by (cases "nonempty_lines s") auto
  then show ?thesis
    using False action_input_not_final [of "last (nonempty_lines s)"]
    by (auto simp add: parse_unfold [OF refl False])
qed

text \<open>
  Claim C3, at a failing input. The second to last line is read at line 40 without a test
  of the number of lines: a single non-empty line that begins with
  \<^verbatim>\<open>Action Input: \<close> makes \<^verbatim>\<open>ps[-2]\<close> raise \<^verbatim>\<open>IndexError\<close>, not one of the
  two \<^verbatim>\<open>ValueError\<close>s of the parser.
\<close>

theorem single_action_input_line_raises_IndexError:
  "nonempty_lines ''Action Input: foo'' = [''Action Input: foo'']
   \<and> get_action_and_input ''Action Input: foo'' = Inl IndexError"
  by (simp add: get_action_and_input_def nonempty_lines_def from_end_def startswith_def)

text \<open>
  Claim C5, at two failing inputs. With no non-empty line, \<^verbatim>\<open>ps[-1]\<close> at line 32
  raises \<^verbatim>\<open>IndexError\<close>: the empty string, and a string of newlines only.
\<close>

theorem empty_output_raises_IndexError:
  "nonempty_lines [] = [] \<and> get_action_and_input [] = Inl IndexError
   \<and> nonempty_lines ''\<newline>\<newline>'' = []
   \<and> get_action_and_input ''\<newline>\<newline>'' = Inl IndexError"
  by (simp add: get_action_and_input_def nonempty_lines_def from_end_def)

text \<open>
  Claim C4, as amended. When the input has exactly one non-empty line, which begins neither
  with \<^verbatim>\<open>Final Answer\<close> nor with \<^verbatim>\<open>Action Input: \<close>, the parser raises the
  \<^verbatim>\<open>ValueError\<close> of line 36, whose message says that the last line has no action
  input.
\<close>

theorem single_line_without_action_input:
  assumes "nonempty_lines s = [l]"
    and "\<not> startswith l ''Final Answer''"
    and "\<not> startswith l ''Action Input: ''"
  shows "get_action_and_input s = Inl (ValueError no_action_input_msg)"
  using assms(2,3) by (simp add: parse_unfold [OF assms(1)])

theorem single_line_without_action_input_witness:
  "get_action_and_input ''I should search.'' = Inl (ValueError no_action_input_msg)"
proof -
  have "nonempty_lines ''I should search.'' = [''I should search.'']"
    by (simp add: nonempty_lines_def)
  from single_line_without_action_input [OF this] show ?thesis
    by (simp add: startswith_def)
qed

text \<open>
  Claim C4 as the specification states it fails: the single line \<^verbatim>\<open>hello\<close> is
  neither a final answer nor an action input, and the error raised is the one about the
  missing action input, not the one of line 41 about the missing action.
\<close>

theorem single_line_cause_counterexample:
  "nonempty_lines ''hello'' = [''hello'']
   \<and> \<not> startswith ''hello'' ''Final Answer''
   \<and> \<not> startswith ''hello'' ''Action Input: ''
   \<and> get_action_and_input ''hello'' = Inl (ValueError no_action_input_msg)
   \<and> get_action_and_input ''hello'' \<noteq> Inl (ValueError no_action_msg)"
  by (simp add: get_action_and_input_def nonempty_lines_def from_end_def startswith_def
      no_action_input_msg_def no_action_msg_def)

text \<open>
  Claim C7. The input has at least two non-empty lines and the last one does not pass the
  final answer test of line 32. When the last line is \<^verbatim>\<open>Action Input: Y\<close> and the
  second to last does not begin with \<^verbatim>\<open>Action: \<close>, the parser raises the
  \<^verbatim>\<open>ValueError\<close> about the missing action (line 41); when the last line does not
  begin with \<^verbatim>\<open>Action Input: \<close>, it raises the \<^verbatim>\<open>ValueError\<close> about the
  missing action input (line 36); the two messages differ.
\<close>

theorem malformed_causes_distinguished:
  assumes "2 \<le> length (nonempty_lines s)"
    and "\<not> startswith (last (nonempty_lines s)) ''Final Answer''"
  shows "(last (nonempty_lines s) = ''Action Input: '' @ Y
            \<and> \<not> startswith (nonempty_lines s ! (length (nonempty_lines s) - 2)) ''Action: ''
          \<longrightarrow> get_action_and_input s = Inl (ValueError no_action_msg))
       \<and> (\<not> startswith (last (nonempty_lines s)) ''Action Input: ''
          \<longrightarrow> get_action_and_input s = Inl (ValueError no_action_input_msg))
       \<and> no_action_msg \<noteq> no_action_input_msg"
proof -
  define ps where "ps = nonempty_lines s"
  have ne: "ps \<noteq> []" using assms(1) by (auto simp add: ps_def)
  have len: "\<not> length ps < 2" using assms(1) by (simp add: ps_def)
  note unf = parse_unfold [OF ps_def [symmetric] ne]
  have a: "get_action_and_input s = Inl (ValueError no_action_msg)"
    if "last ps = ''Action Input: '' @ Y"
      and "\<not> startswith (ps ! (length ps - 2)) ''Action: ''"
  proof -
    have "startswith (last ps) ''Action Input: ''"
      using that(1) by (simp add: startswith_def)
    then show ?thesis
      using assms(2) that(2) len unfolding unf ps_def [symmetric] by simp
  qed
  have b: "get_action_and_input s = Inl (ValueError no_action_input_msg)"
    if "\<not> startswith (last ps) ''Action Input: ''"
    using assms(2) that unfolding unf ps_def [symmetric] by simp
  have c: "no_action_msg \<noteq> no_action_input_msg"
    by (simp add: no_action_input_msg_def no_action_msg_def)
  from a b c show ?thesis unfolding ps_def by blast
qed

text \<open>One input for each of the two causes.\<close>

theorem malformed_causes_distinguished_witness:
  "get_action_and_input ''Thought: Search\<newline>Action Input: NBA''
     = Inl (ValueError no_action_msg)
   \<and> get_action_and_input ''Action: Search\<newline>Thought: NBA''
     = Inl (ValueError no_action_input_msg)"
proof -
  have a: "nonempty_lines ''Thought: Search\<newline>Action Input: NBA''
             = [''Thought: Search'', ''Action Input: NBA'']"
    by (simp add: nonempty_lines_def)
  have b: "nonempty_lines ''Action: Search\<newline>Thought: NBA''
             = [''Action: Search'', ''Thought: NBA'']"
    by (simp add: nonempty_lines_def)
  show ?thesis
    using malformed_causes_distinguished
        [of "''Thought: Search\<newline>Action Input: NBA''" "''NBA''"]
      malformed_causes_distinguished [of "''Action: Search\<newline>Thought: NBA''" "''NBA''"]
    by (simp add: a b startswith_def)
qed

subsection \<open>Only the last two lines count\<close>

text \<open>
  Claim C9. Two inputs whose lists of non-empty lines have the same last two entries
  (\<^verbatim>\<open>ps[-2:]\<close>: the same two lines when both have at least two, the same single line
  when both have one, nothing when both have none) get the same result from the parser,
  the same pair or the same exception.
\<close>

theorem result_depends_on_last_two_lines:
  assumes "drop (length (nonempty_lines s) - 2) (nonempty_lines s)
            = drop (length (nonempty_lines t) - 2) (nonempty_lines t)"
  shows "get_action_and_input s = get_action_and_input t"
proof -
  have "from_end (nonempty_lines s) k = from_end (nonempty_lines t) k" if "k \<le> 2" for k
    using from_end_drop [OF that, of "nonempty_lines s"]
      from_end_drop [OF that, of "nonempty_lines t"] assms by simp
  from this [of 1] this [of 2]
  have e1: "from_end (nonempty_lines s) 1 = from_end (nonempty_lines t) 1"
    and e2: "from_end (nonempty_lines s) 2 = from_end (nonempty_lines t) 2"
    by simp_all
  show ?thesis
    unfolding get_action_and_input_def Let_def e1 e2 ..
qed

text \<open>Two pairs of inputs: with the same last two lines, and with the same single line.\<close>

theorem result_depends_on_last_two_lines_witness:
  "get_action_and_input ''I should search.\<newline>Action: Search\<newline>Action Input: NBA''
     = get_action_and_input
         ''Thought: a\<newline>\<newline>Thought: b\<newline>Action: Search\<newline>Action Input: NBA\<newline>''
   \<and> get_action_and_input ''Thought: NBA'' = get_action_and_input ''\<newline>Thought: NBA\<newline>''"
proof -
  have a: "nonempty_lines ''I should search.\<newline>Action: Search\<newline>Action Input: NBA''
             = [''I should search.'', ''Action: Search'', ''Action Input: NBA'']"
    by (simp add: nonempty_lines_def)
  have b: "nonempty_lines
             ''Thought: a\<newline>\<newline>Thought: b\<newline>Action: Search\<newline>Action Input: NBA\<newline>''
             = [''Thought: a'', ''Thought: b'', ''Action: Search'', ''Action Input: NBA'']"
    by (simp add: nonempty_lines_def)
  have c: "nonempty_lines ''Thought: NBA'' = [''Thought: NBA'']"
    by (simp add: nonempty_lines_def)
  have d: "nonempty_lines ''\<newline>Thought: NBA\<newline>'' = [''Thought: NBA'']"
    by (simp add: nonempty_lines_def)
  show ?thesis
    using result_depends_on_last_two_lines
        [of "''I should search.\<newline>Action: Search\<newline>Action Input: NBA''"
            "''Thought: a\<newline>\<newline>Thought: b\<newline>Action: Search\<newline>Action Input: NBA\<newline>''"]
      result_depends_on_last_two_lines [of "''Thought: NBA''" "''\<newline>Thought: NBA\<newline>''"]
    unfolding a b c d by simp
qed

section \<open>Properties of the router construction\<close>

subsection \<open>Permutations of the tools\<close>

lemma mset_concat_map_perm:
  assumes "mset xs = mset ys"
  shows "mset (concat (map f xs)) = mset (concat (map f ys))"
proof -
  have "mset (concat (map f zs)) = (\<Sum>x\<in>#mset zs. mset (f x))" for zs :: "'a list"
    by (induction zs) simp_all
  then show ?thesis using assms by simp
qed

text \<open>A permutation of the tools permutes the lines of the rendered catalog.\<close>

lemma catalog_lines_perm:
  fixes ts ts' :: "'f Tool list"
  assumes "mset ts' = mset ts"
  shows "mset (str_split (tool_strings ts') (CHR 0x0A))
           = mset (str_split (tool_strings ts) (CHR 0x0A))"
proof (cases "ts = []")
  case True
  then show ?thesis using assms by simp
next
  case False
  from False assms have ne: "ts' \<noteq> []" by auto
  let ?line = "\<lambda>tool::'f Tool. name tool @ '': '' @ description tool"
  have p: "mset (map ?line ts') = mset (map ?line ts)"
    by (simp add: assms)
  have a: "str_split (tool_strings ts) (CHR 0x0A)
             = concat (map (\<lambda>x. str_split x (CHR 0x0A)) (map ?line ts))"
    unfolding tool_strings_def by (rule str_split_join_pieces) (simp add: False)
  have b: "str_split (tool_strings ts') (CHR 0x0A)
             = concat (map (\<lambda>x. str_split x (CHR 0x0A)) (map ?line ts'))"
    unfolding tool_strings_def by (rule str_split_join_pieces) (simp add: ne)
  show ?thesis
    unfolding a b by (rule mset_concat_map_perm [OF p])
qed

subsection \<open>The catalog and the names\<close>

text \<open>
  Claim C8. The rendered catalog and the rendered names are functions of the list of tools.
  Both are empty for no tool; one more tool at the end of the list adds its
  \<^verbatim>\<open>name: description\<close> line after a newline, and its name after a comma and a
  space, so the entries stand in the order of the list. When no name and no description
  contains a newline, the lines of the catalog are exactly the entries of the tools, in
  order. A permutation of the list permutes the lines of the catalog and the names, and
  changes none of them.
\<close>

theorem catalog_rendering:
  fixes ts ts' :: "'f Tool list"
  shows "tool_strings ([] :: 'f Tool list) = [] \<and> tool_names ([] :: 'f Tool list) = []
   \<and> tool_strings (ts @ [t]) =
        (if ts = [] then name t @ '': '' @ description t
         else tool_strings ts @ ''\<newline>'' @ name t @ '': '' @ description t)
   \<and> tool_names (ts @ [t]) = (if ts = [] then name t else tool_names ts @ '', '' @ name t)
   \<and> (ts \<noteq> [] \<and> (\<forall>t\<in>set ts. CHR 0x0A \<notin> set (name t) \<and> CHR 0x0A \<notin> set (description t))
        \<longrightarrow> str_split (tool_strings ts) (CHR 0x0A)
              = map (\<lambda>t. name t @ '': '' @ description t) ts)
   \<and> (mset ts' = mset ts
        \<longrightarrow> mset (str_split (tool_strings ts') (CHR 0x0A))
              = mset (str_split (tool_strings ts) (CHR 0x0A))
            \<and> mset (map name ts') = mset (map name ts))"
proof -
  have a: "tool_strings ([] :: 'f Tool list) = [] \<and> tool_names ([] :: 'f Tool list) = []"
    by (simp add: tool_strings_def tool_names_def)
  have b: "tool_strings (ts @ [t]) =
        (if ts = [] then name t @ '': '' @ description t
         else tool_strings ts @ ''\<newline>'' @ name t @ '': '' @ description t)"
    by (simp add: tool_strings_def join_snoc)
  have c: "tool_names (ts @ [t]) = (if ts = [] then name t else tool_names ts @ '', '' @ name t)"
    by (simp add: tool_names_def join_snoc)
  have d: "str_split (tool_strings ts) (CHR 0x0A) = map (\<lambda>t. name t @ '': '' @ description t) ts"
    if "ts \<noteq> []"
      and "\<forall>t\<in>set ts. CHR 0x0A \<notin> set (name t) \<and> CHR 0x0A \<notin> set (description t)"
    unfolding tool_strings_def
    by (rule str_split_join) (use that in auto)
  have e: "mset (map name ts') = mset (map name ts)" if "mset ts' = mset ts"
    using that by simp
  from a b c d e catalog_lines_perm [of ts' ts] show ?thesis by blast
qed

text \<open>The theorem at the two tools of the docstring, in both orders.\<close>

theorem catalog_rendering_witness:
  "tool_strings example_tools
     = ''Search: useful for searching\<newline>Calculator: useful for doing math''
   \<and> tool_names example_tools = ''Search, Calculator''
   \<and> str_split (tool_strings example_tools) (CHR 0x0A)
       = [''Search: useful for searching'', ''Calculator: useful for doing math'']
   \<and> mset (str_split (tool_strings (rev example_tools)) (CHR 0x0A))
       = mset (str_split (tool_strings example_tools) (CHR 0x0A))
   \<and> mset (map name (rev example_tools)) = mset (map name example_tools)"
  using catalog_rendering [of "[hd example_tools]" "last example_tools"]
    catalog_rendering [of example_tools _ "rev example_tools"]
  by (simp add: example_tools_def tool_strings_def tool_names_def)

subsection \<open>Chains from chain configurations\<close>

text \<open>
  Claim C10. For every LLM, list of chain configurations and keyword arguments,
  \<^verbatim>\<open>from_chains\<close> returns what \<^verbatim>\<open>from_tools_and_llm\<close> returns for the list
  of the tools made of the configurations (the name, the function and the description
  of each, in order), the same LLM and the same keyword arguments: the same chain, or the
  same exception.
\<close>

theorem from_chains_is_from_tools_and_llm:
  "from_chains cls base_template_format l chain_configs kwargs
     = from_tools_and_llm cls base_template_format
         (map (\<lambda>c. \<lparr>name = action_name c, func = action c,
                      description = action_description c\<rparr>) chain_configs)
         l kwargs"
  by (simp add: from_chains_def)

text \<open>
  What the construction hands to the template and to the constructor, in terms of the
  chain configurations.
\<close>

lemma from_chains_unfolded:
  "from_chains cls base_template_format l chain_configs kwargs
     = (case base_template_format
              (join ''\<newline>''
                 (map (\<lambda>c. action_name c @ '': '' @ action_description c) chain_configs))
              (join '', '' (map action_name chain_configs)) of
          Inl e \<Rightarrow> Inl e
        | Inr t \<Rightarrow>
            cls \<lparr>llm_chain =
                   \<lparr>llm = l, prompt = \<lparr>template = t, input_variables = [''input'']\<rparr>\<rparr>\<rparr>
              (map (\<lambda>c. \<lparr>name = action_name c, func = action c,
                           description = action_description c\<rparr>) chain_configs)
              kwargs)"
  by (simp add: from_chains_def from_tools_and_llm_def from_llm_and_tools_def
      tool_strings_def tool_names_def comp_def split: sum.splits)

end
